theory Spec2Isabelle
  imports Main
begin

section \<open>Strings\<close>

text \<open>
  Python's \<^verbatim>\<open>str\<close> is modelled by \<^typ>\<open>string\<close>, one \<^typ>\<open>char\<close> per code
  point, so the strings of the model are those over the code points 0 to 255.
  \<^verbatim>\<open>str.strip()\<close> removes the white space of that range at both ends.
  \<^verbatim>\<open>str.upper()\<close> and \<^verbatim>\<open>str.lower()\<close> are modelled on the ASCII letters; Python
  also maps letters outside ASCII, which the model leaves as they are.
\<close>

definition is_space :: "char \<Rightarrow> bool" where
  "is_space c =
     (let n = (of_char c :: nat)
      in (9 \<le> n \<and> n \<le> 13) \<or> (28 \<le> n \<and> n \<le> 32) \<or> n = 133 \<or> n = 160)"

definition strip :: "string \<Rightarrow> string" where
  "strip s = rev (dropWhile is_space (rev (dropWhile is_space s)))"

definition upper_char :: "char \<Rightarrow> char" where
  "upper_char c =
     (let n = (of_char c :: nat) in if 97 \<le> n \<and> n \<le> 122 then char_of (n - 32) else c)"

definition lower_char :: "char \<Rightarrow> char" where
  "lower_char c =
     (let n = (of_char c :: nat) in if 65 \<le> n \<and> n \<le> 90 then char_of (n + 32) else c)"

definition upper :: "string \<Rightarrow> string" where
  "upper s = map upper_char s"

definition lower :: "string \<Rightarrow> string" where
  "lower s = map lower_char s"

section \<open>Decimal\<close>

text \<open>
  \<^verbatim>\<open>decimal.Decimal\<close>: a finite number is a sign, a coefficient and an exponent
  (\<^verbatim>\<open>Decimal("0")\<close> is \<open>Finite False 0 0\<close>, \<^verbatim>\<open>Decimal("12.50")\<close> is
  \<open>Finite False 1250 (-2)\<close>); the special values are the infinities and the quiet and
  signalling NaNs with their diagnostic payload.
\<close>

datatype decimal =
    Finite bool nat int
  | Infinity bool
  | NaN bool bool nat

datatype error =
    DoesNotExist string
  | DatabaseError string
  | ValueError string
  | InvalidOperation string
  | TypeError string
  | IntegrityError string
  | ReadError string

text \<open>\<^verbatim>\<open>str(exc)\<close>: the message the exception was built with.\<close>

fun str_exc :: "error \<Rightarrow> string" where
  "str_exc (DoesNotExist m) = m"
| "str_exc (DatabaseError m) = m"
| "str_exc (ValueError m) = m"
| "str_exc (InvalidOperation m) = m"
| "str_exc (TypeError m) = m"
| "str_exc (IntegrityError m) = m"
| "str_exc (ReadError m) = m"

definition is_digit :: "char \<Rightarrow> bool" where
  "is_digit c = (let n = (of_char c :: nat) in 48 \<le> n \<and> n \<le> 57)"

definition digit_val :: "char \<Rightarrow> nat" where
  "digit_val c = of_char c - 48"

text \<open>\<^verbatim>\<open>int(digits)\<close> for a string of decimal digits (0 for the empty string).\<close>

definition digits_val :: "string \<Rightarrow> nat" where
  "digits_val ds = foldl (\<lambda>acc c. 10 * acc + digit_val c) 0 ds"

text \<open>An optional sign: whether it is a minus, and the rest of the string.\<close>

fun take_sign :: "string \<Rightarrow> bool \<times> string" where
  "take_sign [] = (False, [])"
| "take_sign (c # cs) =
     (if c = CHR ''-'' then (True, cs)
      else if c = CHR ''+'' then (False, cs)
      else (False, c # cs))"

text \<open>The exponent part after the indicator: an optional sign and at least one digit.\<close>

definition parse_exp :: "string \<Rightarrow> int option" where
  "parse_exp s =
     (let (neg, ds) = take_sign s
      in if ds \<noteq> [] \<and> list_all is_digit ds
         then Some (if neg then - int (digits_val ds) else int (digits_val ds))
         else None)"

text \<open>
  A number: an integer part, an optional fraction, an optional exponent, with a digit
  in the integer part or in the fraction.
\<close>

definition parse_number :: "bool \<Rightarrow> string \<Rightarrow> decimal option" where
  "parse_number neg s =
     (let ip = takeWhile is_digit s;
          r1 = dropWhile is_digit s;
          has_dot = (r1 \<noteq> [] \<and> hd r1 = CHR ''.'');
          fp = (if has_dot then takeWhile is_digit (tl r1) else []);
          r2 = (if has_dot then dropWhile is_digit (tl r1) else r1)
      in if ip = [] \<and> fp = [] then None
         else if r2 = [] then
           Some (Finite neg (digits_val (ip @ fp)) (- int (length fp)))
         else if hd r2 = CHR ''e'' \<or> hd r2 = CHR ''E'' then
           (case parse_exp (tl r2) of
              None \<Rightarrow> None
            | Some e \<Rightarrow> Some (Finite neg (digits_val (ip @ fp)) (e - int (length fp))))
         else None)"

text \<open>The special values, matched without regard to case.\<close>

definition parse_special :: "bool \<Rightarrow> string \<Rightarrow> decimal option" where
  "parse_special neg s =
     (let l = lower s
      in if l = ''inf'' \<or> l = ''infinity'' then Some (Infinity neg)
         else if take 3 l = ''nan'' \<and> list_all is_digit (drop 3 l)
           then Some (NaN neg False (digits_val (drop 3 l)))
         else if take 4 l = ''snan'' \<and> list_all is_digit (drop 4 l)
           then Some (NaN neg True (digits_val (drop 4 l)))
         else None)"

text \<open>
  \<^verbatim>\<open>Decimal(value)\<close> for a string: white space at both ends and every underscore
  are dropped, then the numeric-string grammar of the \<^verbatim>\<open>decimal\<close> module is
  matched; a string outside the grammar raises \<^verbatim>\<open>InvalidOperation\<close>.
\<close>

definition Decimal :: "string \<Rightarrow> error + decimal" where
  "Decimal v =
     (let (neg, body) = take_sign (filter (\<lambda>c. c \<noteq> CHR ''_'') (strip v))
      in case parse_number neg body of
           Some d \<Rightarrow> Inr d
         | None \<Rightarrow>
             (case parse_special neg body of
                Some d \<Rightarrow> Inr d
              | None \<Rightarrow> Inl (InvalidOperation ''[<class 'decimal.ConversionSyntax'>]'')))"

section \<open>Row Normalizer\<close>

text \<open>
  A row of \<^verbatim>\<open>csv.DictReader\<close>: the dictionary built from the header's column
  names zipped with the line's cells, where the cell of a column that the line is too
  short for is \<^verbatim>\<open>None\<close>. When the header repeats a name, the last cell wins.
\<close>

type_synonym csv_row = "(string \<times> string option) list"

text \<open>\<^verbatim>\<open>row.get(key) or ""\<close>.\<close>

definition get_or_empty :: "csv_row \<Rightarrow> string \<Rightarrow> string" where
  "get_or_empty row k = (case map_of (rev row) k of Some (Some v) \<Rightarrow> v | _ \<Rightarrow> [])"

text \<open>The dictionary \<^verbatim>\<open>_normalize_row\<close> returns.\<close>

record item =
  item_sku_upper :: string
  item_name :: string
  item_description :: string
  item_price :: decimal

text \<open>
  \<^verbatim>\<open>_normalize_row\<close>: the result is an exception or the returned value, which is
  \<^verbatim>\<open>None\<close> for a row to skip.
\<close>

definition normalize_row :: "csv_row \<Rightarrow> error + item option" where
  "normalize_row row =
     (let raw_sku = strip (get_or_empty row ''sku'')
      in if raw_sku = [] then Inr None
         else
           let sku_upper = upper raw_sku;
               name = strip (get_or_empty row ''name'');
               description = strip (get_or_empty row ''description'');
               raw_price = strip (get_or_empty row ''price'');
               price = (if raw_price = [] then Inr (Finite False 0 0)
                        else case Decimal raw_price of
                               Inr d \<Rightarrow> Inr d
                             | Inl (InvalidOperation m) \<Rightarrow> Inr (Finite False 0 0)
                             | Inl (TypeError m) \<Rightarrow> Inr (Finite False 0 0)
                             | Inl e \<Rightarrow> Inl e)
           in case price of
                Inl e \<Rightarrow> Inl e
              | Inr p \<Rightarrow>
                  Inr (Some \<lparr> item_sku_upper = sku_upper, item_name = name,
                              item_description = description, item_price = p \<rparr>))"

section \<open>Data model\<close>

text \<open>
  \<^verbatim>\<open>Product\<close>. The primary key and the two time stamps are \<^verbatim>\<open>None\<close> on an
  instance that has not been saved; the database sets them on insert.
\<close>

record product =
  pk :: "nat option"
  sku :: string
  name :: string
  description :: string
  price :: decimal
  is_active :: bool
  created_at :: "nat option"
  updated_at :: "nat option"

datatype product_field =
  PF_sku | PF_name | PF_description | PF_price | PF_is_active | PF_created_at | PF_updated_at

datatype job_status = Pending | Processing | Completed | Failed

text \<open>
  The uploaded file as the reader delivers it: each element is the next row, or the
  exception that opening, decoding or parsing raises at that point.
\<close>

type_synonym csv_file = "(error + csv_row) list"

record import_job =
  job_id :: string
  original_filename :: string
  status :: job_status
  total_rows :: int
  processed_rows :: int
  error_message :: string
  job_file :: "csv_file option"

datatype job_field = JF_status | JF_error_message | JF_total_rows | JF_processed_rows

record webhook =
  webhook_pk :: nat
  url :: string
  event :: string
  is_enabled :: bool

record webhook_delivery =
  delivery_pk :: nat
  webhook_id :: nat
  triggered_at :: nat
  status_code :: "int option"
  response_time_ms :: "int option"
  success :: bool
  delivery_error_message :: string

datatype json =
    JNull
  | JBool bool
  | JInt int
  | JStr string
  | JObj "(string \<times> json) list"

text \<open>The units of work that \<^verbatim>\<open>.delay(...)\<close> puts on the queue.\<close>

datatype task =
    ProcessImportJob string
  | DeliverWebhook nat json "string option"
  | SendTestWebhook nat

text \<open>
  The persistent state: the four tables, the sequences of the automatic primary keys,
  the queue of scheduled tasks and the clock that \<^verbatim>\<open>auto_now\<close> and
  \<^verbatim>\<open>auto_now_add\<close> read.
\<close>

record db =
  products :: "product list"
  product_seq :: nat
  import_jobs :: "import_job list"
  webhooks :: "webhook list"
  deliveries :: "webhook_delivery list"
  delivery_seq :: nat
  queue :: "task list"
  now :: nat

section \<open>Database operations\<close>

text \<open>
  \<^verbatim>\<open>transaction.atomic()\<close>: when the block raises, the database is back in the state
  it had on entry; what the block did to objects in memory stays.
\<close>

definition atomic ::
  "(db \<Rightarrow> (error + 'a) \<times> 'l \<times> db) \<Rightarrow> db \<Rightarrow> (error + 'a) \<times> 'l \<times> db" where
  "atomic body s =
     (case body s of
        (Inl e, l, s') \<Rightarrow> (Inl e, l, s)
      | (Inr v, l, s') \<Rightarrow> (Inr v, l, s'))"

text \<open>
  The constraint \<^verbatim>\<open>uniq_product_sku_ci\<close> of \<^verbatim>\<open>Product.Meta\<close>: no two rows with
  the same \<^verbatim>\<open>Lower("sku")\<close>.
\<close>

definition uniq_product_sku_ci :: "product \<Rightarrow> product list \<Rightarrow> bool" where
  "uniq_product_sku_ci p rows = (\<not> list_ex (\<lambda>q. lower (sku q) = lower (sku p)) rows)"

text \<open>
  \<^verbatim>\<open>Product.objects.bulk_create(objs)\<close>: the rows are inserted in order, each with the
  next primary key and the current time in both time stamps; a row that breaks the
  unique constraint raises \<^verbatim>\<open>IntegrityError\<close> with the earlier rows already written.
\<close>

fun bulk_create :: "product list \<Rightarrow> db \<Rightarrow> (error + unit) \<times> db" where
  "bulk_create [] s = (Inr (), s)"
| "bulk_create (p # ps) s =
     (if uniq_product_sku_ci p (products s)
      then bulk_create ps
             (s\<lparr> products := products s @
                    [p\<lparr> pk := Some (product_seq s), created_at := Some (now s),
                        updated_at := Some (now s) \<rparr>],
                 product_seq := Suc (product_seq s) \<rparr>)
      else (Inl (IntegrityError ''UNIQUE constraint failed: uniq_product_sku_ci''), s))"

fun copy_product_field :: "product_field \<Rightarrow> product \<Rightarrow> product \<Rightarrow> product" where
  "copy_product_field PF_sku src dst = dst\<lparr> sku := sku src \<rparr>"
| "copy_product_field PF_name src dst = dst\<lparr> name := name src \<rparr>"
| "copy_product_field PF_description src dst = dst\<lparr> description := description src \<rparr>"
| "copy_product_field PF_price src dst = dst\<lparr> price := price src \<rparr>"
| "copy_product_field PF_is_active src dst = dst\<lparr> is_active := is_active src \<rparr>"
| "copy_product_field PF_created_at src dst = dst\<lparr> created_at := created_at src \<rparr>"
| "copy_product_field PF_updated_at src dst = dst\<lparr> updated_at := updated_at src \<rparr>"

definition copy_product_fields :: "product_field list \<Rightarrow> product \<Rightarrow> product \<Rightarrow> product" where
  "copy_product_fields fs src dst = fold (\<lambda>f d. copy_product_field f src d) fs dst"

text \<open>
  \<^verbatim>\<open>Product.objects.bulk_update(objs, fields)\<close>: every row whose primary key is that of
  an object gets the listed columns from the object's attributes (the first such object,
  as the first matching \<^verbatim>\<open>WHEN\<close> decides). No \<^verbatim>\<open>pre_save\<close> runs, so the column
  \<^verbatim>\<open>updated_at\<close> receives the value the object was loaded with.
\<close>

definition bulk_update :: "product list \<Rightarrow> product_field list \<Rightarrow> db \<Rightarrow> db" where
  "bulk_update objs flds s =
     s\<lparr> products :=
          map (\<lambda>row. case find (\<lambda>obj. pk obj = pk row) objs of
                        Some obj \<Rightarrow> copy_product_fields flds obj row
                      | None \<Rightarrow> row)
              (products s) \<rparr>"

fun copy_job_field :: "job_field \<Rightarrow> import_job \<Rightarrow> import_job \<Rightarrow> import_job" where
  "copy_job_field JF_status src dst = dst\<lparr> status := status src \<rparr>"
| "copy_job_field JF_error_message src dst = dst\<lparr> error_message := error_message src \<rparr>"
| "copy_job_field JF_total_rows src dst = dst\<lparr> total_rows := total_rows src \<rparr>"
| "copy_job_field JF_processed_rows src dst = dst\<lparr> processed_rows := processed_rows src \<rparr>"

definition copy_job_fields :: "job_field list \<Rightarrow> import_job \<Rightarrow> import_job \<Rightarrow> import_job" where
  "copy_job_fields fs src dst = fold (\<lambda>f d. copy_job_field f src d) fs dst"

text \<open>\<^verbatim>\<open>ImportJob.objects.get(pk=job_id)\<close>.\<close>

definition get_job :: "string \<Rightarrow> db \<Rightarrow> error + import_job" where
  "get_job jid s =
     (case find (\<lambda>j. job_id j = jid) (import_jobs s) of
        None \<Rightarrow> Inl (DoesNotExist ''ImportJob matching query does not exist.'')
      | Some j \<Rightarrow> Inr j)"

text \<open>
  \<^verbatim>\<open>job.save(update_fields=fields)\<close>: the listed columns of the job's row are
  written from the object; when no row has the object's key, Django raises
  \<^verbatim>\<open>DatabaseError\<close>.
\<close>

definition save_job :: "job_field list \<Rightarrow> import_job \<Rightarrow> db \<Rightarrow> (error + unit) \<times> db" where
  "save_job update_fields job s =
     (if list_ex (\<lambda>j. job_id j = job_id job) (import_jobs s)
      then (Inr (),
            s\<lparr> import_jobs :=
                 map (\<lambda>j. if job_id j = job_id job then copy_job_fields update_fields job j else j)
                     (import_jobs s) \<rparr>)
      else (Inl (DatabaseError ''Save with update_fields did not affect any rows.''), s))"

section \<open>Upsert Engine\<close>

text \<open>
  The query of \<^verbatim>\<open>_upsert_products\<close>: the products whose lower-cased SKU is in
  \<^verbatim>\<open>sku_lowers\<close>.
\<close>

definition existing_qs :: "string list \<Rightarrow> db \<Rightarrow> product list" where
  "existing_qs sku_lowers s = filter (\<lambda>p. lower (sku p) \<in> set sku_lowers) (products s)"

text \<open>
  \<^verbatim>\<open>{p.sku.lower(): p for p in existing_qs}\<close>: a later product replaces an earlier one
  under the same key.
\<close>

definition by_lower :: "product list \<Rightarrow> (string \<rightharpoonup> product)" where
  "by_lower qs = map_of (rev (map (\<lambda>p. (lower (sku p), p)) qs))"

text \<open>
  The loop over the items. The objects of \<^verbatim>\<open>existing_by_lower\<close> are shared with
  \<^verbatim>\<open>to_update\<close>: the dictionary is the store of these objects, an assignment to an
  attribute updates the store, and \<^verbatim>\<open>to_update\<close> holds the keys of the objects
  appended to it.
\<close>

fun stage ::
  "item list \<Rightarrow> (string \<rightharpoonup> product) \<Rightarrow> product list \<Rightarrow> string list
     \<Rightarrow> (string \<rightharpoonup> product) \<times> product list \<times> string list" where
  "stage [] existing_by_lower to_create to_update = (existing_by_lower, to_create, to_update)"
| "stage (it # its) existing_by_lower to_create to_update =
     (let key = lower (item_sku_upper it)
      in case existing_by_lower key of
           Some existing \<Rightarrow>
             stage its
               (existing_by_lower(key \<mapsto>
                  existing\<lparr> name := item_name it, description := item_description it,
                            price := item_price it \<rparr>))
               to_create (to_update @ [key])
         | None \<Rightarrow>
             stage its existing_by_lower
               (to_create @
                  [\<lparr> pk = None, sku = item_sku_upper it, name = item_name it,
                     description = item_description it, price = item_price it,
                     is_active = True, created_at = None, updated_at = None \<rparr>])
               to_update)"

text \<open>The objects that the references of \<^verbatim>\<open>to_update\<close> stand for.\<close>

definition deref :: "(string \<rightharpoonup> product) \<Rightarrow> string list \<Rightarrow> product list" where
  "deref store refs = List.map_filter store refs"

definition upsert_products ::
  "item list \<Rightarrow> import_job \<Rightarrow> db \<Rightarrow> (error + unit) \<times> import_job \<times> db" where
  "upsert_products buffer job s =
     (let items = buffer
      in if items = [] then (Inr (), job, s)
         else
           let sku_lowers = map (\<lambda>it. lower (item_sku_upper it)) items;
               existing_by_lower = by_lower (existing_qs sku_lowers s);
               (store, to_create, to_update) = stage items existing_by_lower [] []
           in atomic
                (\<lambda>s0.
                   case (if to_create \<noteq> [] then bulk_create to_create s0 else (Inr (), s0)) of
                     (Inl e, s1) \<Rightarrow> (Inl e, job, s1)
                   | (Inr u, s1) \<Rightarrow>
                       let s2 = (if to_update \<noteq> []
                                 then bulk_update (deref store to_update)
                                        [PF_name, PF_description, PF_price, PF_updated_at] s1
                                 else s1);
                           job1 = job\<lparr> processed_rows := processed_rows job + int (length items) \<rparr>
                       in case save_job [JF_processed_rows] job1 s2 of
                            (Inl e, s3) \<Rightarrow> (Inl e, job1, s3)
                          | (Inr u, s3) \<Rightarrow> (Inr (), job1, s3))
                s)"

section \<open>Event Bus and Delivery Worker\<close>

text \<open>
  \<^verbatim>\<open>trigger_event_webhooks\<close>: one \<^verbatim>\<open>deliver_webhook.delay(...)\<close> for every webhook
  of the query \<^verbatim>\<open>filter(event=event, is_enabled=True)\<close>.
\<close>

definition trigger_event_webhooks :: "string \<Rightarrow> json \<Rightarrow> db \<Rightarrow> db" where
  "trigger_event_webhooks ev payload s =
     (let qs = filter (\<lambda>w. event w = ev \<and> is_enabled w) (webhooks s)
      in s\<lparr> queue := queue s @ map (\<lambda>w. DeliverWebhook (webhook_pk w) payload (Some ev)) qs \<rparr>)"

text \<open>
  The outcome of \<^verbatim>\<open>requests.post(..., timeout=5)\<close>: a response with its status code
  and body text, or the exception the call raised (connection error, timeout) with its
  message. The network is a parameter of the worker: it maps the URL and the JSON body
  to the outcome and to the milliseconds that the call took.
\<close>

datatype http_result = Response int string | RequestFailed string

type_synonym network = "string \<Rightarrow> json \<Rightarrow> http_result \<times> int"

text \<open>
  \<^verbatim>\<open>Response.ok\<close> of the \<^verbatim>\<open>requests\<close> library: true unless
  \<^verbatim>\<open>raise_for_status()\<close> raises, which it does for the status codes from 400 up to
  599.
\<close>

definition response_ok :: "int \<Rightarrow> bool" where
  "response_ok code = (\<not> (400 \<le> code \<and> code < 600))"

text \<open>\<^verbatim>\<open>delivery.save()\<close>: the row of the receipt is rewritten from the object.\<close>

definition save_delivery :: "webhook_delivery \<Rightarrow> db \<Rightarrow> db" where
  "save_delivery d s =
     s\<lparr> deliveries := map (\<lambda>r. if delivery_pk r = delivery_pk d then d else r) (deliveries s) \<rparr>"

text \<open>\<^verbatim>\<open>event or webhook.event\<close>.\<close>

definition effective_event :: "string option \<Rightarrow> webhook \<Rightarrow> string" where
  "effective_event ev wh =
     (case ev of None \<Rightarrow> event wh | Some e \<Rightarrow> if e = [] then event wh else e)"

text \<open>The JSON body of the request.\<close>

definition envelope :: "string \<Rightarrow> nat \<Rightarrow> json \<Rightarrow> json" where
  "envelope ev sent_at payload =
     JObj [(''event'', JStr ev), (''sent_at'', JInt (int sent_at)), (''data'', payload)]"

definition deliver_webhook ::
  "network \<Rightarrow> nat \<Rightarrow> json \<Rightarrow> string option \<Rightarrow> db \<Rightarrow> (error + unit) \<times> db" where
  "deliver_webhook post wid payload ev s =
     (case find (\<lambda>w. webhook_pk w = wid) (webhooks s) of
        None \<Rightarrow> (Inl (DoesNotExist ''Webhook matching query does not exist.''), s)
      | Some wh \<Rightarrow>
          let delivery = \<lparr> delivery_pk = delivery_seq s, webhook_id = webhook_pk wh,
                           triggered_at = now s, status_code = None, response_time_ms = None,
                           success = False, delivery_error_message = [] \<rparr>;
              s1 = s\<lparr> deliveries := deliveries s @ [delivery],
                      delivery_seq := Suc (delivery_seq s) \<rparr>
          in case post (url wh) (envelope (effective_event ev wh) (now s) payload) of
               (Response code body, elapsed_ms) \<Rightarrow>
                 (Inr (),
                  save_delivery
                    (delivery\<lparr> status_code := Some code, response_time_ms := Some elapsed_ms,
                               success := response_ok code,
                               delivery_error_message :=
                                 (if response_ok code then [] else take 500 body) \<rparr>) s1)
             | (RequestFailed msg, elapsed_ms) \<Rightarrow>
                 (Inr (),
                  save_delivery
                    (delivery\<lparr> status_code := None, response_time_ms := Some elapsed_ms,
                               success := False,
                               delivery_error_message := take 500 msg \<rparr>) s1))"

definition send_test_webhook :: "nat \<Rightarrow> db \<Rightarrow> (error + unit) \<times> db" where
  "send_test_webhook wid s =
     (case find (\<lambda>w. webhook_pk w = wid) (webhooks s) of
        None \<Rightarrow> (Inl (DoesNotExist ''Webhook matching query does not exist.''), s)
      | Some wh \<Rightarrow>
          (Inr (),
           s\<lparr> queue := queue s @
                 [DeliverWebhook (webhook_pk wh)
                    (JObj [(''type'', JStr ''test''),
                           (''message'', JStr ''Test webhook from Product Importer'')])
                    (Some (event wh))] \<rparr>))"

text \<open>
  \<^verbatim>\<open>WebhookDeleteView\<close>: the webhook is deleted, and its deliveries with it
  (\<^verbatim>\<open>on_delete=models.CASCADE\<close>).
\<close>

definition webhook_delete :: "nat \<Rightarrow> db \<Rightarrow> db" where
  "webhook_delete wid s =
     s\<lparr> webhooks := filter (\<lambda>w. webhook_pk w \<noteq> wid) (webhooks s),
        deliveries := filter (\<lambda>d. webhook_id d \<noteq> wid) (deliveries s) \<rparr>"

section \<open>Import Job Coordinator\<close>

definition CHUNK_SIZE :: nat where
  "CHUNK_SIZE = 5000"

text \<open>
  The loop of \<^verbatim>\<open>process_import_job\<close> over \<^verbatim>\<open>enumerate(reader, start=1)\<close>, with
  the buffer, the job object and the database as its state.
\<close>

fun import_rows ::
  "csv_file \<Rightarrow> nat \<Rightarrow> item list \<Rightarrow> import_job \<Rightarrow> db
     \<Rightarrow> (error + item list) \<times> import_job \<times> db" where
  "import_rows [] idx buffer job s = (Inr buffer, job, s)"
| "import_rows (Inl e # rest) idx buffer job s = (Inl e, job, s)"
| "import_rows (Inr row # rest) idx buffer job s =
     (let job1 = job\<lparr> total_rows := int idx \<rparr>
      in case (if idx mod 1000 = 0 then save_job [JF_total_rows] job1 s else (Inr (), s)) of
           (Inl e, s1) \<Rightarrow> (Inl e, job1, s1)
         | (Inr u, s1) \<Rightarrow>
             (case normalize_row row of
                Inl e \<Rightarrow> (Inl e, job1, s1)
              | Inr None \<Rightarrow> import_rows rest (Suc idx) buffer job1 s1
              | Inr (Some normalized) \<Rightarrow>
                  if CHUNK_SIZE \<le> length (buffer @ [normalized])
                  then (case upsert_products (buffer @ [normalized]) job1 s1 of
                          (Inl e, job2, s2) \<Rightarrow> (Inl e, job2, s2)
                        | (Inr u, job2, s2) \<Rightarrow> import_rows rest (Suc idx) [] job2 s2)
                  else import_rows rest (Suc idx) (buffer @ [normalized]) job1 s1))"

text \<open>The \<^verbatim>\<open>try\<close> block of \<^verbatim>\<open>process_import_job\<close>.\<close>

definition import_body :: "import_job \<Rightarrow> db \<Rightarrow> (error + unit) \<times> import_job \<times> db" where
  "import_body job s =
     (case job_file job of
        None \<Rightarrow> (Inl (ValueError ''No file associated with this import job.''), job, s)
      | Some f \<Rightarrow>
          (case import_rows f 1 [] job s of
             (Inl e, job1, s1) \<Rightarrow> (Inl e, job1, s1)
           | (Inr buffer, job1, s1) \<Rightarrow>
               (case (if buffer \<noteq> [] then upsert_products buffer job1 s1
                      else (Inr (), job1, s1)) of
                  (Inl e, job2, s2) \<Rightarrow> (Inl e, job2, s2)
                | (Inr u, job2, s2) \<Rightarrow>
                    let job3 = job2\<lparr> status := Completed \<rparr>
                    in case save_job [JF_status, JF_processed_rows, JF_total_rows] job3 s2 of
                         (Inl e, s3) \<Rightarrow> (Inl e, job3, s3)
                       | (Inr u, s3) \<Rightarrow>
                           (Inr (), job3,
                            trigger_event_webhooks ''import.completed''
                              (JObj [(''job_id'', JStr (job_id job3)),
                                     (''filename'', JStr (original_filename job3)),
                                     (''total_rows'', JInt (total_rows job3)),
                                     (''processed_rows'', JInt (processed_rows job3)),
                                     (''status'', JStr ''completed'')])
                              s3))))"

text \<open>
  The first statements of \<^verbatim>\<open>process_import_job\<close>: the job is loaded, its status,
  message and counters are reset and saved.
\<close>

definition reset_job :: "string \<Rightarrow> db \<Rightarrow> (error + import_job) \<times> db" where
  "reset_job jid s =
     (case get_job jid s of
        Inl e \<Rightarrow> (Inl e, s)
      | Inr job0 \<Rightarrow>
          let job = job0\<lparr> status := Processing, error_message := [], total_rows := 0,
                          processed_rows := 0 \<rparr>
          in case save_job [JF_status, JF_error_message, JF_total_rows, JF_processed_rows]
                    job s of
               (Inl e, s1) \<Rightarrow> (Inl e, s1)
             | (Inr u, s1) \<Rightarrow> (Inr job, s1))"

text \<open>
  \<^verbatim>\<open>process_import_job\<close>: the result is the exception that leaves the task, if
  any. The handler sets the status and the message on the job object, saves these two
  columns and raises the exception again.
\<close>

definition process_import_job :: "string \<Rightarrow> db \<Rightarrow> (error + unit) \<times> db" where
  "process_import_job jid s =
     (case reset_job jid s of
        (Inl e, s1) \<Rightarrow> (Inl e, s1)
      | (Inr job, s1) \<Rightarrow>
          (case import_body job s1 of
             (Inr u, job1, s2) \<Rightarrow> (Inr (), s2)
           | (Inl exc, job1, s2) \<Rightarrow>
               let job2 = job1\<lparr> status := Failed, error_message := str_exc exc \<rparr>
               in case save_job [JF_status, JF_error_message] job2 s2 of
                    (Inl e, s3) \<Rightarrow> (Inl e, s3)
                  | (Inr u, s3) \<Rightarrow> (Inl exc, s3)))"

text \<open>
  \<^verbatim>\<open>upload_view\<close> for a valid form: the job is created as pending with the uploaded
  file under a new identifier and the import is scheduled. The identifier that
  \<^verbatim>\<open>uuid.uuid4\<close> draws is a parameter; an identifier that is taken breaks the primary
  key.
\<close>

definition upload_view :: "string \<Rightarrow> string \<Rightarrow> csv_file \<Rightarrow> db \<Rightarrow> (error + unit) \<times> db" where
  "upload_view jid filename f s =
     (if list_ex (\<lambda>j. job_id j = jid) (import_jobs s)
      then (Inl (IntegrityError ''UNIQUE constraint failed: products_importjob.id''), s)
      else (Inr (),
            s\<lparr> import_jobs := import_jobs s @
                  [\<lparr> job_id = jid, original_filename = filename, status = Pending,
                     total_rows = 0, processed_rows = 0, error_message = [],
                     job_file = Some f \<rparr>],
               queue := queue s @ [ProcessImportJob jid] \<rparr>))"

section \<open>Operations of the system\<close>

text \<open>A worker runs one task.\<close>

fun run_task :: "network \<Rightarrow> task \<Rightarrow> db \<Rightarrow> (error + unit) \<times> db" where
  "run_task post (ProcessImportJob jid) s = process_import_job jid s"
| "run_task post (DeliverWebhook wid payload ev) s = deliver_webhook post wid payload ev s"
| "run_task post (SendTestWebhook wid) s = send_test_webhook wid s"

text \<open>The tasks of a list are run one after the other, whatever each of them returns.\<close>

fun run_tasks :: "network \<Rightarrow> task list \<Rightarrow> db \<Rightarrow> db" where
  "run_tasks post [] s = s"
| "run_tasks post (t # ts) s = run_tasks post ts (snd (run_task post t s))"

datatype operation =
    Upload string string csv_file
  | Run task
  | Trigger string json
  | DeleteWebhook nat

fun step :: "network \<Rightarrow> operation \<Rightarrow> db \<Rightarrow> db" where
  "step post (Upload jid filename f) s = snd (upload_view jid filename f s)"
| "step post (Run t) s = snd (run_task post t s)"
| "step post (Trigger ev payload) s = trigger_event_webhooks ev payload s"
| "step post (DeleteWebhook wid) s = webhook_delete wid s"

text \<open>The status of a job in the database.\<close>

definition job_status_of :: "string \<Rightarrow> db \<Rightarrow> job_status option" where
  "job_status_of jid s = map_option status (find (\<lambda>j. job_id j = jid) (import_jobs s))"

section \<open>Invariants of the tables\<close>

text \<open>
  The sequence of the receipts' primary keys is ahead of every key in the table, as an
  automatic primary key is.
\<close>

definition delivery_seq_ok :: "db \<Rightarrow> bool" where
  "delivery_seq_ok s = list_all (\<lambda>d. delivery_pk d < delivery_seq s) (deliveries s)"

text \<open>
  Two states of the job table that differ in the row of one job at most, and in no
  row's identifier.
\<close>

definition same_but :: "string \<Rightarrow> import_job list \<Rightarrow> import_job list \<Rightarrow> bool" where
  "same_but jid js js' =
     list_all2 (\<lambda>a b. job_id b = job_id a \<and> (job_id a \<noteq> jid \<longrightarrow> b = a)) js js'"

section \<open>Example states\<close>

text \<open>The states and inputs at which the theorems below are evaluated.\<close>

definition empty_db :: db where
  "empty_db =
     \<lparr> products = [], product_seq = 1, import_jobs = [], webhooks = [], deliveries = [],
       delivery_seq = 1, queue = [], now = 7 \<rparr>"

text \<open>The three rows of the first end-to-end scenario of the specification.\<close>

definition scenario_file :: csv_file where
  "scenario_file =
     [Inr [(''sku'', Some ''abc''), (''price'', Some ''9.99'')],
      Inr [(''sku'', Some []), (''name'', Some ''skip me'')],
      Inr [(''sku'', Some ''ABC''), (''price'', Some ''12.50'')]]"

definition scenario_job :: import_job where
  "scenario_job =
     \<lparr> job_id = ''j1'', original_filename = ''products.csv'', status = Pending,
       total_rows = 0, processed_rows = 0, error_message = [],
       job_file = Some scenario_file \<rparr>"

text \<open>A product that was deactivated in the user interface.\<close>

definition inactive_product :: product where
  "inactive_product =
     \<lparr> pk = Some 1, sku = ''ABC'', name = ''old name'', description = ''old text'',
       price = Finite False 5 0, is_active = False, created_at = Some 3,
       updated_at = Some 4 \<rparr>"

text \<open>The batch of property P2: SKU abc with price 10, then SKU ABC with price 20.\<close>

definition p2_batch :: "item list" where
  "p2_batch =
     [\<lparr> item_sku_upper = upper ''abc'', item_name = ''first'', item_description = [],
        item_price = Finite False 10 0 \<rparr>,
      \<lparr> item_sku_upper = upper ''ABC'', item_name = ''second'', item_description = [],
        item_price = Finite False 20 0 \<rparr>]"

definition hook :: "nat \<Rightarrow> string \<Rightarrow> bool \<Rightarrow> webhook" where
  "hook n ev enabled =
     \<lparr> webhook_pk = n, url = ''https://example.com/hook'', event = ev, is_enabled = enabled \<rparr>"

text \<open>A network on which no destination can be reached, and one that answers 999.\<close>

definition unreachable :: network where
  "unreachable u body = (RequestFailed ''Connection refused'', 5003)"

definition answers_999 :: network where
  "answers_999 u body = (Response 999 ''Request denied'', 12)"

text \<open>The webhooks of the third end-to-end scenario, and one that is disabled.\<close>

definition scenario_hooks :: db where
  "scenario_hooks =
     empty_db\<lparr> webhooks :=
       [hook 1 ''product.created'' True, hook 2 ''product.created'' True,
        hook 3 ''product.deleted'' True, hook 4 ''product.created'' False] \<rparr>"

definition one_hook :: db where
  "one_hook = empty_db\<lparr> webhooks := [hook 1 ''product.created'' True] \<rparr>"

text \<open>A database with the job of the scenario, on an empty catalog and on a catalog that
  holds the deactivated product.\<close>

definition job_db :: db where
  "job_db = empty_db\<lparr> import_jobs := [scenario_job] \<rparr>"

definition one_product :: db where
  "one_product =
     empty_db\<lparr> products := [inactive_product], product_seq := 2,
               import_jobs := [scenario_job] \<rparr>"



text \<open>A job that was completed and whose file is no longer attached.\<close>

definition detached_job :: import_job where
  "detached_job =
     scenario_job\<lparr> status := Completed, total_rows := 3, processed_rows := 2,
                   job_file := None \<rparr>"

definition detached_db :: db where
  "detached_db = empty_db\<lparr> import_jobs := [detached_job] \<rparr>"

section \<open>Row Normalizer: the price never fails a row\<close>

lemma Decimal_error: "Decimal v = Inl e \<Longrightarrow> \<exists>m. e = InvalidOperation m"
  by (auto simp: Decimal_def split: prod.splits option.splits)

text \<open>
  Claim C5. \<^verbatim>\<open>_normalize_row\<close> raises on no row. For a row whose trimmed SKU is not
  empty it returns a record, and the price of the record is \<^verbatim>\<open>Decimal("0")\<close> when
  the trimmed price field is empty and also when \<^verbatim>\<open>Decimal\<close> rejects it. The witness
  is the price string abc.
\<close>

theorem normalize_row_price_lenient:
  "(\<forall>e. normalize_row row \<noteq> Inl e) \<and>
   (strip (get_or_empty row ''sku'') \<noteq> [] \<longrightarrow>
      (\<exists>it. normalize_row row = Inr (Some it) \<and>
         (strip (get_or_empty row ''price'') = [] \<longrightarrow> item_price it = Finite False 0 0) \<and>
         ((\<exists>e. Decimal (strip (get_or_empty row ''price'')) = Inl e) \<longrightarrow>
            item_price it = Finite False 0 0)))"
proof -
  obtain r where r: "Decimal (strip (get_or_empty row ''price'')) = r" by simp
  show ?thesis
  proof (cases r)
    case (Inl e)
    with r Decimal_error obtain m where "e = InvalidOperation m" by blast
    with r Inl show ?thesis by (simp add: normalize_row_def Let_def)
  next
    case (Inr d)
    with r show ?thesis by (simp add: normalize_row_def Let_def)
  qed
qed

theorem normalize_row_price_lenient_witness:
  "strip (get_or_empty [(''sku'', Some ''a-1''), (''price'', Some ''abc'')] ''sku'') \<noteq> [] \<and>
   (\<exists>e. Decimal (strip (get_or_empty [(''sku'', Some ''a-1''), (''price'', Some ''abc'')]
                          ''price'')) = Inl e) \<and>
   (\<exists>it. normalize_row [(''sku'', Some ''a-1''), (''price'', Some ''abc'')] = Inr (Some it) \<and>
         item_price it = Finite False 0 0)"
proof -
  have h1: "strip (get_or_empty [(''sku'', Some ''a-1''), (''price'', Some ''abc'')] ''sku'') \<noteq> []"
    by code_simp
  have h2: "Decimal (strip (get_or_empty [(''sku'', Some ''a-1''), (''price'', Some ''abc'')]
                ''price''))
     = Inl (InvalidOperation ''[<class 'decimal.ConversionSyntax'>]'')"
    by code_simp
  from normalize_row_price_lenient [of "[(''sku'', Some ''a-1''), (''price'', Some ''abc'')]"] h1 h2
  show ?thesis by blast
qed

section \<open>Delivery Worker: receipts\<close>

text \<open>
  Claim C10. When no webhook has the given primary key, \<^verbatim>\<open>deliver_webhook\<close> raises
  \<^verbatim>\<open>Webhook.DoesNotExist\<close> and leaves the database as it was: no receipt is
  created.
\<close>

theorem deliver_unknown_webhook:
  "find (\<lambda>w. webhook_pk w = wid) (webhooks s) = None \<Longrightarrow>
   deliver_webhook post wid payload ev s =
     (Inl (DoesNotExist ''Webhook matching query does not exist.''), s)"
  by (simp add: deliver_webhook_def)

theorem deliver_unknown_webhook_witness:
  "find (\<lambda>w. webhook_pk w = 2)
     (webhooks (empty_db\<lparr> webhooks := [hook 1 ''product.created'' True] \<rparr>)) = None \<and>
   deliver_webhook unreachable 2 JNull None
       (empty_db\<lparr> webhooks := [hook 1 ''product.created'' True] \<rparr>) =
     (Inl (DoesNotExist ''Webhook matching query does not exist.''),
      empty_db\<lparr> webhooks := [hook 1 ''product.created'' True] \<rparr>)"
proof -
  have h: "find (\<lambda>w. webhook_pk w = 2)
             (webhooks (empty_db\<lparr> webhooks := [hook 1 ''product.created'' True] \<rparr>)) = None"
    by (simp add: hook_def)
  from deliver_unknown_webhook [OF h] h show ?thesis by simp
qed

lemma map_other_pk:
  "list_all (\<lambda>d. delivery_pk d < n) ds \<Longrightarrow>
   map (\<lambda>r. if delivery_pk r = n then d' else r) ds = ds"
  by (induction ds) auto

lemma find_pk: "find (\<lambda>w. webhook_pk w = wid) ws = Some wh \<Longrightarrow> webhook_pk wh = wid"
  by (auto simp: find_Some_iff)

text \<open>What one delivery to an existing webhook does to the database.\<close>

lemma deliver_existing:
  assumes f: "find (\<lambda>w. webhook_pk w = wid) (webhooks s) = Some wh"
      and ok: "delivery_seq_ok s"
      and p: "post (url wh) (envelope (effective_event ev wh) (now s) payload) = (r, ms)"
  shows "deliver_webhook post wid payload ev s =
     (Inr (),
      s\<lparr> deliveries := deliveries s @
            [\<lparr> delivery_pk = delivery_seq s, webhook_id = wid, triggered_at = now s,
               status_code =
                 (case r of Response code body \<Rightarrow> Some code | RequestFailed msg \<Rightarrow> None),
               response_time_ms = Some ms,
               success =
                 (case r of Response code body \<Rightarrow> response_ok code
                  | RequestFailed msg \<Rightarrow> False),
               delivery_error_message =
                 (case r of
                    Response code body \<Rightarrow> if response_ok code then [] else take 500 body
                  | RequestFailed msg \<Rightarrow> take 500 msg) \<rparr>],
          delivery_seq := Suc (delivery_seq s) \<rparr>)"
proof -
  from ok have m:
    "\<And>d'. map (\<lambda>r. if delivery_pk r = delivery_seq s then d' else r) (deliveries s)
       = deliveries s"
    by (simp add: delivery_seq_ok_def map_other_pk)
  from f have w: "webhook_pk wh = wid" by (rule find_pk)
  show ?thesis
    using f p w by (cases r) (simp_all add: deliver_webhook_def save_delivery_def Let_def m)
qed

lemma deliver_existing_ok:
  assumes "find (\<lambda>w. webhook_pk w = wid) (webhooks s) = Some wh" "delivery_seq_ok s"
  shows "delivery_seq_ok (snd (deliver_webhook post wid payload ev s))"
proof -
  obtain r ms where p: "post (url wh) (envelope (effective_event ev wh) (now s) payload) = (r, ms)"
    by (cases "post (url wh) (envelope (effective_event ev wh) (now s) payload)")
  from assms(2) have "list_all (\<lambda>d. delivery_pk d < Suc (delivery_seq s)) (deliveries s)"
    by (auto simp: delivery_seq_ok_def list_all_iff)
  then show ?thesis
    by (simp add: deliver_existing [where post = post and ev = ev and payload = payload,
                    OF assms p] delivery_seq_ok_def)
qed

lemma deliver_existing_appends:
  assumes f: "find (\<lambda>w. webhook_pk w = wid) (webhooks s) = Some wh"
      and ok: "delivery_seq_ok s"
  shows "\<exists>d. deliver_webhook post wid payload ev s =
            (Inr (), s\<lparr> deliveries := deliveries s @ [d],
                        delivery_seq := Suc (delivery_seq s) \<rparr>) \<and> webhook_id d = wid"
proof -
  obtain r ms where p: "post (url wh) (envelope (effective_event ev wh) (now s) payload) = (r, ms)"
    by (cases "post (url wh) (envelope (effective_event ev wh) (now s) payload)")
  have "deliver_webhook post wid payload ev s =
     (Inr (),
      s\<lparr> deliveries := deliveries s @
            [\<lparr> delivery_pk = delivery_seq s, webhook_id = wid, triggered_at = now s,
               status_code =
                 (case r of Response code body \<Rightarrow> Some code | RequestFailed msg \<Rightarrow> None),
               response_time_ms = Some ms,
               success =
                 (case r of Response code body \<Rightarrow> response_ok code
                  | RequestFailed msg \<Rightarrow> False),
               delivery_error_message =
                 (case r of
                    Response code body \<Rightarrow> if response_ok code then [] else take 500 body
                  | RequestFailed msg \<Rightarrow> take 500 msg) \<rparr>],
          delivery_seq := Suc (delivery_seq s) \<rparr>)"
    (is "_ = (_, _\<lparr> deliveries := _ @ [?d], delivery_seq := _ \<rparr>)")
    by (rule deliver_existing [where post = post and ev = ev and payload = payload,
              OF f ok p])
  then show ?thesis
    by (intro exI [of _ ?d]) simp
qed

text \<open>
  Claim C9, as amended. A delivery to an existing webhook returns without an exception
  and appends exactly one receipt, with the elapsed milliseconds, the status code of the
  response or \<^verbatim>\<open>None\<close> when the call raised, and an error text of at most 500
  characters. The receipt's \<^verbatim>\<open>success\<close> is \<^verbatim>\<open>Response.ok\<close>: true exactly when
  there is a response whose status code is not in the range from 400 to 599.
\<close>

theorem deliver_records_outcome:
  assumes f: "find (\<lambda>w. webhook_pk w = wid) (webhooks s) = Some wh"
      and ok: "delivery_seq_ok s"
      and p: "post (url wh) (envelope (effective_event ev wh) (now s) payload) = (r, ms)"
  shows "\<exists>d. deliver_webhook post wid payload ev s =
            (Inr (), s\<lparr> deliveries := deliveries s @ [d],
                        delivery_seq := Suc (delivery_seq s) \<rparr>) \<and>
          webhook_id d = wid \<and>
          response_time_ms d = Some ms \<and>
          status_code d =
            (case r of Response code body \<Rightarrow> Some code | RequestFailed msg \<Rightarrow> None) \<and>
          success d =
            (case r of Response code body \<Rightarrow> \<not> (400 \<le> code \<and> code < 600)
             | RequestFailed msg \<Rightarrow> False) \<and>
          delivery_error_message d =
            (case r of
               Response code body \<Rightarrow> if 400 \<le> code \<and> code < 600 then take 500 body else []
             | RequestFailed msg \<Rightarrow> take 500 msg) \<and>
          length (delivery_error_message d) \<le> 500"
proof -
  let ?d = "\<lparr> delivery_pk = delivery_seq s, webhook_id = wid, triggered_at = now s,
               status_code =
                 (case r of Response code body \<Rightarrow> Some code | RequestFailed msg \<Rightarrow> None),
               response_time_ms = Some ms,
               success =
                 (case r of Response code body \<Rightarrow> response_ok code
                  | RequestFailed msg \<Rightarrow> False),
               delivery_error_message =
                 (case r of
                    Response code body \<Rightarrow> if response_ok code then [] else take 500 body
                  | RequestFailed msg \<Rightarrow> take 500 msg) \<rparr>"
  have "deliver_webhook post wid payload ev s =
          (Inr (), s\<lparr> deliveries := deliveries s @ [?d],
                      delivery_seq := Suc (delivery_seq s) \<rparr>)"
    by (rule deliver_existing [where post = post and ev = ev and payload = payload,
              OF f ok p])
  then show ?thesis
    by (intro exI [of _ ?d]) (cases r; simp add: response_ok_def)
qed

text \<open>The witness: the destination of the fourth end-to-end scenario cannot be reached.\<close>

theorem deliver_records_outcome_witness:
  "find (\<lambda>w. webhook_pk w = 1) (webhooks one_hook) = Some (hook 1 ''product.created'' True) \<and>
   delivery_seq_ok one_hook \<and>
   (\<exists>d. deliver_webhook unreachable 1 JNull None one_hook =
           (Inr (), one_hook\<lparr> deliveries := deliveries one_hook @ [d],
                              delivery_seq := Suc (delivery_seq one_hook) \<rparr>) \<and>
         status_code d = None \<and> success d = False \<and>
         response_time_ms d = Some 5003 \<and>
         delivery_error_message d = ''Connection refused'')"
proof -
  have f: "find (\<lambda>w. webhook_pk w = 1) (webhooks one_hook) = Some (hook 1 ''product.created'' True)"
    by (simp add: one_hook_def hook_def)
  have ok: "delivery_seq_ok one_hook"
    by (simp add: delivery_seq_ok_def one_hook_def empty_db_def)
  have p: "unreachable (url (hook 1 ''product.created'' True))
             (envelope (effective_event None (hook 1 ''product.created'' True)) (now one_hook) JNull)
           = (RequestFailed ''Connection refused'', 5003)"
    by (simp add: unreachable_def)
  from deliver_records_outcome [where post = unreachable and ev = None and payload = JNull,
         OF f ok p]
  show ?thesis using f ok by auto
qed

text \<open>
  The claim as it was stated fails for a response outside the ranges 2xx to 5xx: a
  destination that answers with the status code 999 is recorded as a success.
\<close>

theorem deliver_success_counterexample:
  "status_code (last (deliveries (snd (deliver_webhook answers_999 1 JNull None one_hook))))
     = Some 999 \<and>
   success (last (deliveries (snd (deliver_webhook answers_999 1 JNull None one_hook)))) = True"
  by code_simp

section \<open>Event Bus: one receipt per matching webhook\<close>

lemma run_deliveries:
  "list_all (\<lambda>w. find (\<lambda>v. webhook_pk v = webhook_pk w) (webhooks s) \<noteq> None) ws \<Longrightarrow>
   delivery_seq_ok s \<Longrightarrow>
   \<exists>ds. run_tasks post (map (\<lambda>w. DeliverWebhook (webhook_pk w) payload ev) ws) s =
           s\<lparr> deliveries := deliveries s @ ds,
              delivery_seq := delivery_seq s + length ws \<rparr> \<and>
         map webhook_id ds = map webhook_pk ws"
proof (induction ws arbitrary: s)
  case Nil
  then show ?case by simp
next
  case (Cons w ws)
  from Cons.prems(1) obtain wh where
    f: "find (\<lambda>v. webhook_pk v = webhook_pk w) (webhooks s) = Some wh" by auto
  let ?s1 = "snd (deliver_webhook post (webhook_pk w) payload ev s)"
  from deliver_existing_appends [where post = post and ev = ev and payload = payload,
         OF f Cons.prems(2)] obtain d where
    d: "deliver_webhook post (webhook_pk w) payload ev s =
          (Inr (), s\<lparr> deliveries := deliveries s @ [d], delivery_seq := Suc (delivery_seq s) \<rparr>)"
       "webhook_id d = webhook_pk w" by blast
  have ok1: "delivery_seq_ok ?s1" by (rule deliver_existing_ok [OF f Cons.prems(2)])
  have w1: "webhooks ?s1 = webhooks s" by (simp add: d)
  with Cons.prems(1) have all1:
    "list_all (\<lambda>w. find (\<lambda>v. webhook_pk v = webhook_pk w) (webhooks ?s1) \<noteq> None) ws" by simp
  from Cons.IH [OF all1 ok1] obtain ds where
    ds: "run_tasks post (map (\<lambda>w. DeliverWebhook (webhook_pk w) payload ev) ws) ?s1 =
           ?s1\<lparr> deliveries := deliveries ?s1 @ ds,
                 delivery_seq := delivery_seq ?s1 + length ws \<rparr>"
        "map webhook_id ds = map webhook_pk ws" by blast
  show ?case
    apply (rule exI [of _ "d # ds"])
    using ds d by simp
qed

lemma find_member: "w \<in> set ws \<Longrightarrow> find (\<lambda>v. webhook_pk v = webhook_pk w) ws \<noteq> None"
  by (auto simp: find_None_iff)

text \<open>
  Claim C8, as amended. \<^verbatim>\<open>trigger_event_webhooks\<close> schedules one delivery for every
  webhook that is enabled and configured for the event, in the order of the query, and
  creates no receipt itself. When the scheduled deliveries run while these webhooks
  still exist (here: directly after the trigger), exactly one receipt per matching
  webhook is appended, whatever the network does; no receipt belongs to a webhook that
  is disabled or configured for another event; with no matching webhook nothing changes.
\<close>

theorem trigger_creates_receipts:
  assumes ok: "delivery_seq_ok s"
      and pks: "distinct (map webhook_pk (webhooks s))"
  shows "let matching = filter (\<lambda>w. event w = ev \<and> is_enabled w) (webhooks s);
             s1 = trigger_event_webhooks ev payload s;
             scheduled = drop (length (queue s)) (queue s1);
             s2 = run_tasks post scheduled s1
         in scheduled = map (\<lambda>w. DeliverWebhook (webhook_pk w) payload (Some ev)) matching \<and>
            deliveries s1 = deliveries s \<and>
            (\<exists>ds. deliveries s2 = deliveries s @ ds \<and>
                  length ds = length matching \<and>
                  map webhook_id ds = map webhook_pk matching \<and>
                  (\<forall>w \<in> set (webhooks s).
                     \<not> (event w = ev \<and> is_enabled w) \<longrightarrow> webhook_pk w \<notin> set (map webhook_id ds))) \<and>
            (matching = [] \<longrightarrow> s1 = s \<and> s2 = s)"
proof -
  let ?m = "filter (\<lambda>w. event w = ev \<and> is_enabled w) (webhooks s)"
  let ?s1 = "trigger_event_webhooks ev payload s"
  let ?ts = "map (\<lambda>w. DeliverWebhook (webhook_pk w) payload (Some ev)) ?m"
  have sched: "drop (length (queue s)) (queue ?s1) = ?ts"
    by (simp add: trigger_event_webhooks_def)
  have d1: "deliveries ?s1 = deliveries s" and w1: "webhooks ?s1 = webhooks s"
    by (simp_all add: trigger_event_webhooks_def)
  have ok1: "delivery_seq_ok ?s1"
    using ok by (simp add: delivery_seq_ok_def trigger_event_webhooks_def)
  have all: "list_all (\<lambda>w. find (\<lambda>v. webhook_pk v = webhook_pk w) (webhooks ?s1) \<noteq> None) ?m"
    using find_member [of _ "webhooks s"] by (auto simp: w1 list_all_iff)
  from run_deliveries [OF all ok1, of post payload "Some ev"] obtain ds where
    ds: "run_tasks post ?ts ?s1 =
           ?s1\<lparr> deliveries := deliveries ?s1 @ ds,
                 delivery_seq := delivery_seq ?s1 + length ?m \<rparr>"
        "map webhook_id ds = map webhook_pk ?m" by blast
  from ds(2) have len: "length ds = length ?m" by (metis length_map)
  have others: "\<forall>w \<in> set (webhooks s).
      \<not> (event w = ev \<and> is_enabled w) \<longrightarrow> webhook_pk w \<notin> set (map webhook_id ds)"
  proof (intro ballI impI notI)
    fix w assume w: "w \<in> set (webhooks s)" and n: "\<not> (event w = ev \<and> is_enabled w)"
      and "webhook_pk w \<in> set (map webhook_id ds)"
    then have "webhook_pk w \<in> webhook_pk ` set ?m" by (simp add: ds(2))
    then obtain m where m: "m \<in> set ?m" "webhook_pk m = webhook_pk w" by auto
    from pks have "inj_on webhook_pk (set (webhooks s))" by (simp add: distinct_map)
    with m w have "m = w" by (auto dest: inj_onD)
    with m(1) n show False by simp
  qed
  have empty: "?m = [] \<longrightarrow> ?s1 = s \<and> run_tasks post ?ts ?s1 = s"
    by (simp add: trigger_event_webhooks_def)
  have dels: "deliveries (run_tasks post ?ts ?s1) = deliveries s @ ds"
    by (simp add: ds(1) d1)
  have ex: "\<exists>ds. deliveries (run_tasks post ?ts ?s1) = deliveries s @ ds \<and>
                  length ds = length ?m \<and>
                  map webhook_id ds = map webhook_pk ?m \<and>
                  (\<forall>w \<in> set (webhooks s).
                     \<not> (event w = ev \<and> is_enabled w) \<longrightarrow> webhook_pk w \<notin> set (map webhook_id ds))"
    using dels len ds(2) others by (intro exI [of _ ds] conjI)
  show ?thesis
    unfolding Let_def sched
    using d1 ex empty by (intro conjI) (rule refl)
qed

text \<open>
  The witness is the third end-to-end scenario, with every destination unreachable: two
  receipts, for the webhooks 1 and 2.
\<close>

theorem trigger_creates_receipts_witness:
  "delivery_seq_ok scenario_hooks \<and>
   distinct (map webhook_pk (webhooks scenario_hooks)) \<and>
   (\<exists>ds. deliveries
           (run_tasks unreachable
              (drop (length (queue scenario_hooks))
                 (queue (trigger_event_webhooks ''product.created'' JNull scenario_hooks)))
              (trigger_event_webhooks ''product.created'' JNull scenario_hooks)) =
         deliveries scenario_hooks @ ds \<and>
         map webhook_id ds = [1, 2])"
proof -
  have ok: "delivery_seq_ok scenario_hooks" by code_simp
  have pks: "distinct (map webhook_pk (webhooks scenario_hooks))" by code_simp
  have m: "map webhook_pk
             (filter (\<lambda>w. event w = ''product.created'' \<and> is_enabled w)
                (webhooks scenario_hooks)) = [1, 2]"
    by code_simp
  from trigger_creates_receipts [where post = unreachable and ev = "''product.created''"
         and payload = JNull, OF ok pks]
  show ?thesis using ok pks m unfolding Let_def by auto
qed

text \<open>
  The claim as it was stated fails when a matching webhook is deleted after the trigger
  and before its delivery runs: one webhook matches, and no receipt exists afterwards.
\<close>

theorem trigger_receipts_counterexample:
  "length (filter (\<lambda>w. event w = ''product.created'' \<and> is_enabled w) (webhooks one_hook)) = 1 \<and>
   deliveries
     (run_tasks unreachable
        (drop (length (queue one_hook))
           (queue (trigger_event_webhooks ''product.created'' JNull one_hook)))
        (webhook_delete 1 (trigger_event_webhooks ''product.created'' JNull one_hook))) = []"
  by code_simp

section \<open>Upsert Engine: frame, atomicity, duplicates\<close>

lemma bulk_create_appends:
  "bulk_create ps s = (r, s') \<Longrightarrow>
   \<exists>new. products s' = products s @ new \<and> import_jobs s' = import_jobs s"
proof (induction ps arbitrary: s)
  case Nil
  then show ?case by auto
next
  case (Cons p ps)
  show ?case
  proof (cases "uniq_product_sku_ci p (products s)")
    case True
    with Cons.prems Cons.IH show ?thesis by (fastforce simp: )
  next
    case False
    with Cons.prems show ?thesis by auto
  qed
qed

lemma bulk_update_frame:
  "map (\<lambda>p. (pk p, sku p, is_active p, created_at p))
     (products (bulk_update objs [PF_name, PF_description, PF_price, PF_updated_at] s)) =
   map (\<lambda>p. (pk p, sku p, is_active p, created_at p)) (products s)"
  by (auto simp: bulk_update_def copy_product_fields_def split: option.splits)

lemma bulk_update_jobs:
  "import_jobs (bulk_update objs flds s) = import_jobs s"
  by (simp add: bulk_update_def)

lemma save_job_products: "save_job fs job s = (r, s') \<Longrightarrow> products s' = products s"
  by (auto simp: save_job_def split: if_splits)

lemma bulk_update_nil: "bulk_update [] flds s = s"
  by (simp add: bulk_update_def)

lemma deref_nil: "deref store [] = []"
  by (simp add: deref_def List.map_filter_simps)

lemma upsert_cases:
  assumes u: "upsert_products items job s = (r, job', s')"
      and ne: "items \<noteq> []"
      and st: "stage items
                 (by_lower (existing_qs (map (\<lambda>it. lower (item_sku_upper it)) items) s)) [] []
               = (store, to_create, to_update)"
  shows "(\<exists>e. r = Inl e \<and> s' = s) \<or>
         (\<exists>s1. r = Inr () \<and> bulk_create to_create s = (Inr (), s1) \<and>
               job' = job\<lparr> processed_rows := processed_rows job + int (length items) \<rparr> \<and>
               save_job [JF_processed_rows] job'
                 (bulk_update (deref store to_update)
                    [PF_name, PF_description, PF_price, PF_updated_at] s1) = (Inr (), s'))"
  using u ne st
  by (auto simp: upsert_products_def atomic_def Let_def bulk_update_nil deref_nil
           split: prod.splits sum.splits if_splits)

text \<open>
  Claim C6. Whatever a call of \<^verbatim>\<open>_upsert_products\<close> returns, every product that was
  in the catalog before the call is still there at its place with the same primary key,
  SKU, \<^verbatim>\<open>is_active\<close> and \<^verbatim>\<open>created_at\<close>: the update writes the columns
  \<^verbatim>\<open>name\<close>, \<^verbatim>\<open>description\<close>, \<^verbatim>\<open>price\<close> and \<^verbatim>\<open>updated_at\<close> only, and
  the inserts append rows.
\<close>

theorem upsert_keeps_identity:
  assumes "upsert_products items job s = (r, job', s')"
  shows "map (\<lambda>p. (pk p, sku p, is_active p, created_at p))
           (take (length (products s)) (products s')) =
         map (\<lambda>p. (pk p, sku p, is_active p, created_at p)) (products s)"
proof (cases "items = []")
  case True
  with assms show ?thesis by (simp add: upsert_products_def)
next
  case False
  obtain store to_create to_update where st:
    "stage items (by_lower (existing_qs (map (\<lambda>it. lower (item_sku_upper it)) items) s)) [] []
       = (store, to_create, to_update)"
    by (cases "stage items (by_lower (existing_qs (map (\<lambda>it. lower (item_sku_upper it)) items) s)) [] []")
  from upsert_cases [OF assms False st] show ?thesis
  proof (elim disjE exE conjE)
    fix e assume "s' = s"
    then show ?thesis by simp
  next
    fix s1
    assume c: "bulk_create to_create s = (Inr (), s1)"
      and sv: "save_job [JF_processed_rows] job'
                 (bulk_update (deref store to_update)
                    [PF_name, PF_description, PF_price, PF_updated_at] s1) = (Inr (), s')"
    from bulk_create_appends [OF c] obtain new where new: "products s1 = products s @ new"
      by blast
    from save_job_products [OF sv] have
      "map (\<lambda>p. (pk p, sku p, is_active p, created_at p)) (products s') =
       map (\<lambda>p. (pk p, sku p, is_active p, created_at p)) (products s1)"
      by (simp add: bulk_update_frame)
    then have "take (length (products s))
                 (map (\<lambda>p. (pk p, sku p, is_active p, created_at p)) (products s'))
       = map (\<lambda>p. (pk p, sku p, is_active p, created_at p)) (products s)"
      by (simp add: new)
    then show ?thesis by (simp add: take_map)
  qed
qed

text \<open>
  The witness is property P3: the deactivated product is imported again under the SKUs
  abc and ABC and is still inactive afterwards.
\<close>

theorem upsert_keeps_identity_witness:
  "map (\<lambda>p. (pk p, sku p, is_active p, created_at p))
     (take (length (products one_product))
        (products (snd (snd (upsert_products p2_batch scenario_job one_product))))) =
   [(Some 1, ''ABC'', False, Some 3)]"
proof -
  have e: "upsert_products p2_batch scenario_job one_product =
             (fst (upsert_products p2_batch scenario_job one_product),
              fst (snd (upsert_products p2_batch scenario_job one_product)),
              snd (snd (upsert_products p2_batch scenario_job one_product)))"
    by simp
  have k: "map (\<lambda>p. (pk p, sku p, is_active p, created_at p)) (products one_product) =
             [(Some 1, ''ABC'', False, Some 3)]"
    by (simp add: one_product_def empty_db_def inactive_product_def)
  from upsert_keeps_identity [OF e] k show ?thesis by simp
qed

lemma copy_job_field_id: "job_id (copy_job_field f src dst) = job_id dst"
  by (cases f) simp_all

lemma copy_job_fields_id: "job_id (copy_job_fields fs src dst) = job_id dst"
  unfolding copy_job_fields_def
  by (induction fs arbitrary: dst) (simp_all add: copy_job_field_id)

lemma find_map_job:
  "find (\<lambda>j. job_id j = jid) (map (\<lambda>j. if job_id j = jid then copy_job_fields fs src j else j) js)
     = map_option (copy_job_fields fs src) (find (\<lambda>j. job_id j = jid) js)"
  by (induction js) (simp_all add: copy_job_fields_id)

text \<open>A save that succeeds has found the row, and the row then holds the saved columns.\<close>

lemma save_job_get:
  assumes "save_job fs job s = (Inr (), s')"
  shows "\<exists>j0. get_job (job_id job) s = Inr j0 \<and>
              get_job (job_id job) s' = Inr (copy_job_fields fs job j0)"
proof -
  from assms have ex: "list_ex (\<lambda>j. job_id j = job_id job) (import_jobs s)"
    and s': "s' = s\<lparr> import_jobs :=
                 map (\<lambda>j. if job_id j = job_id job then copy_job_fields fs job j else j)
                     (import_jobs s) \<rparr>"
    by (auto simp: save_job_def split: if_splits)
  from ex obtain j0 where j0: "find (\<lambda>j. job_id j = job_id job) (import_jobs s) = Some j0"
    by (cases "find (\<lambda>j. job_id j = job_id job) (import_jobs s)")
       (auto simp: find_None_iff list_ex_iff)
  then show ?thesis by (simp add: get_job_def s' find_map_job)
qed



text \<open>
  Claim C1 does not hold of the code. On a catalog that already holds the SKU, the batch
  of property P2 is applied and the product ends with the price 20 of the last row. On a
  catalog that does not hold the SKU, both rows are staged in \<^verbatim>\<open>to_create\<close>, the
  second insert breaks the constraint \<^verbatim>\<open>uniq_product_sku_ci\<close>, and the batch fails
  with nothing written.
\<close>

theorem upsert_duplicate_new_sku_fails:
  "map (\<lambda>p. (sku p, price p))
     (products (snd (snd (upsert_products p2_batch scenario_job one_product)))) =
     [(''ABC'', Finite False 20 0)] \<and>
   upsert_products p2_batch scenario_job job_db =
     (Inl (IntegrityError ''UNIQUE constraint failed: uniq_product_sku_ci''),
      scenario_job, job_db)"
  by code_simp

section \<open>Import Job Coordinator: the job table\<close>

lemma same_but_refl: "same_but jid js js"
  by (simp add: same_but_def list_all2_refl)

lemma same_but_trans:
  assumes "same_but jid js js'" "same_but jid js' js''"
  shows "same_but jid js js''"
  using assms unfolding same_but_def
  by (rule list_all2_trans [rotated]) auto

lemma same_but_ids: "same_but jid js js' \<Longrightarrow> map job_id js' = map job_id js"
  unfolding same_but_def by (induction js js' rule: list_all2_induct) auto

lemma same_but_find:
  "same_but jid js js' \<Longrightarrow> jid' \<noteq> jid \<Longrightarrow>
   find (\<lambda>j. job_id j = jid') js' = find (\<lambda>j. job_id j = jid') js"
  unfolding same_but_def by (induction js js' rule: list_all2_induct) auto

lemma same_but_has:
  "same_but jid js js' \<Longrightarrow>
   list_ex (\<lambda>j. job_id j = jid') js' = list_ex (\<lambda>j. job_id j = jid') js"
  unfolding same_but_def by (induction js js' rule: list_all2_induct) auto

lemma save_job_same_but:
  "save_job fs job s = (r, s') \<Longrightarrow> same_but (job_id job) (import_jobs s) (import_jobs s')"
  by (auto simp: save_job_def same_but_def list_all2_map2 copy_job_fields_id
           intro!: list_all2_refl split: if_splits)

lemma save_job_ok:
  "list_ex (\<lambda>j. job_id j = job_id job) (import_jobs s) \<Longrightarrow> \<exists>s'. save_job fs job s = (Inr (), s')"
  by (simp add: save_job_def)

lemma upsert_same_but:
  assumes "upsert_products items job s = (r, job', s')"
  shows "same_but (job_id job) (import_jobs s) (import_jobs s') \<and> job_id job' = job_id job"
proof (cases "items = []")
  case True
  with assms show ?thesis by (simp add: upsert_products_def same_but_refl)
next
  case False
  obtain store to_create to_update where st:
    "stage items (by_lower (existing_qs (map (\<lambda>it. lower (item_sku_upper it)) items) s)) [] []
       = (store, to_create, to_update)"
    by (cases "stage items (by_lower (existing_qs (map (\<lambda>it. lower (item_sku_upper it)) items) s)) [] []")
  have id: "job_id job' = job_id job"
    using assms False st
    by (auto simp: upsert_products_def atomic_def Let_def split: prod.splits sum.splits if_splits)
  from upsert_cases [OF assms False st] have "same_but (job_id job) (import_jobs s) (import_jobs s')"
  proof (elim disjE exE conjE)
    fix e assume "s' = s"
    then show ?thesis by (simp add: same_but_refl)
  next
    fix s1
    assume c: "bulk_create to_create s = (Inr (), s1)"
      and sv: "save_job [JF_processed_rows] job'
                 (bulk_update (deref store to_update)
                    [PF_name, PF_description, PF_price, PF_updated_at] s1) = (Inr (), s')"
    from bulk_create_appends [OF c] have "import_jobs s1 = import_jobs s" by blast
    with save_job_same_but [OF sv] id show ?thesis by (simp add: bulk_update_jobs)
  qed
  with id show ?thesis by simp
qed

lemma import_rows_same_but:
  "import_rows f idx buffer job s = (r, job', s') \<Longrightarrow>
   same_but (job_id job) (import_jobs s) (import_jobs s') \<and> job_id job' = job_id job"
proof (induction f idx buffer job s rule: import_rows.induct)
  case (1 idx buffer job s)
  then show ?case by (simp add: same_but_refl)
next
  case (2 e rest idx buffer job s)
  then show ?case by (simp add: same_but_refl)
next
  case (3 row rest idx buffer job s)
  let ?job1 = "job\<lparr> total_rows := int idx \<rparr>"
  obtain r1 s1 where sv:
    "(if idx mod 1000 = 0 then save_job [JF_total_rows] ?job1 s else (Inr (), s)) = (r1, s1)"
    by (cases "if idx mod 1000 = 0 then save_job [JF_total_rows] ?job1 s else (Inr (), s)")
  have sb1: "same_but (job_id job) (import_jobs s) (import_jobs s1)"
    using sv save_job_same_but [of "[JF_total_rows]" ?job1 s r1 s1]
    by (auto simp: same_but_refl split: if_splits)
  show ?case
  proof (cases r1)
    case (Inl e)
    with "3.prems" sv sb1 show ?thesis by (auto simp: Let_def)
  next
    case (Inr u)
    show ?thesis
    proof (cases "normalize_row row")
      case (Inl e)
      with "3.prems" sv sb1 \<open>r1 = Inr u\<close> show ?thesis by (auto simp: Let_def)
    next
      case nr: (Inr opt)
      show ?thesis
      proof (cases opt)
        case None
        with "3.prems" sv nr \<open>r1 = Inr u\<close> have
          "import_rows rest (Suc idx) buffer ?job1 s1 = (r, job', s')" by (simp add: Let_def)
        from "3.IH"(1) [OF refl sv [symmetric] \<open>r1 = Inr u\<close> nr None this] sb1
        show ?thesis by (auto intro: same_but_trans)
      next
        case (Some normalized)
        show ?thesis
        proof (cases "CHUNK_SIZE \<le> length (buffer @ [normalized])")
          case True
          obtain r2 job2 s2 where up:
            "upsert_products (buffer @ [normalized]) ?job1 s1 = (r2, job2, s2)"
            by (cases "upsert_products (buffer @ [normalized]) ?job1 s1")
          from upsert_same_but [OF up] have
            sb2: "same_but (job_id job) (import_jobs s1) (import_jobs s2)" and
            id2: "job_id job2 = job_id job" by simp_all
          show ?thesis
          proof (cases r2)
            case (Inl e)
            with "3.prems" sv nr Some True up \<open>r1 = Inr u\<close> sb1 sb2 id2 show ?thesis
              by (auto simp: Let_def intro: same_but_trans)
          next
            case (Inr u2)
            with "3.prems" sv nr Some True up \<open>r1 = Inr u\<close> have
              "import_rows rest (Suc idx) [] job2 s2 = (r, job', s')" by (simp add: Let_def)
            from "3.IH"(2) [OF refl sv [symmetric] \<open>r1 = Inr u\<close> nr Some True up [symmetric] Inr refl this]
              sb1 sb2 id2
            show ?thesis by (auto intro: same_but_trans)
          qed
        next
          case False
          with "3.prems" sv nr Some \<open>r1 = Inr u\<close> have
            "import_rows rest (Suc idx) (buffer @ [normalized]) ?job1 s1 = (r, job', s')"
            by (simp add: Let_def)
          from "3.IH"(3) [OF refl sv [symmetric] \<open>r1 = Inr u\<close> nr Some False this] sb1
          show ?thesis by (auto intro: same_but_trans)
        qed
      qed
    qed
  qed
qed


lemma trigger_jobs: "import_jobs (trigger_event_webhooks ev p s) = import_jobs s"
  by (simp add: trigger_event_webhooks_def)

lemma get_job_id: "get_job jid s = Inr j \<Longrightarrow> job_id j = jid"
  by (auto simp: get_job_def find_Some_iff split: option.splits)

lemma get_job_has: "get_job jid s = Inr j \<Longrightarrow> list_ex (\<lambda>j. job_id j = jid) (import_jobs s)"
  by (auto simp: get_job_def find_Some_iff list_ex_iff split: option.splits)

lemma get_job_same_but:
  "same_but jid (import_jobs s) (import_jobs s') \<Longrightarrow> jid' \<noteq> jid \<Longrightarrow>
   get_job jid' s' = get_job jid' s"
  by (simp add: get_job_def same_but_find)

lemma import_body_same_but:
  assumes "import_body job s = (r, job', s')"
  shows "same_but (job_id job) (import_jobs s) (import_jobs s') \<and> job_id job' = job_id job"
proof (cases "job_file job")
  case None
  with assms show ?thesis by (auto simp: import_body_def same_but_refl)
next
  case (Some f)
  obtain r1 job1 s1 where ir: "import_rows f 1 [] job s = (r1, job1, s1)"
    by (cases "import_rows f 1 [] job s")
  from import_rows_same_but [OF ir] have
    sb1: "same_but (job_id job) (import_jobs s) (import_jobs s1)" and id1: "job_id job1 = job_id job"
    by simp_all
  show ?thesis
  proof (cases r1)
    case (Inl e)
    with assms Some ir sb1 id1 show ?thesis by (auto simp: import_body_def)
  next
    case (Inr buffer)
    obtain r2 job2 s2 where up:
      "(if buffer \<noteq> [] then upsert_products buffer job1 s1 else (Inr (), job1, s1)) = (r2, job2, s2)"
      by (cases "if buffer \<noteq> [] then upsert_products buffer job1 s1 else (Inr (), job1, s1)")
    have "same_but (job_id job1) (import_jobs s1) (import_jobs s2) \<and> job_id job2 = job_id job1"
      using up upsert_same_but [of buffer job1 s1 r2 job2 s2]
      by (auto simp: same_but_refl split: if_splits)
    with id1 sb1 have sb2: "same_but (job_id job) (import_jobs s) (import_jobs s2)"
      and id2: "job_id job2 = job_id job" by (auto intro: same_but_trans)
    show ?thesis
    proof (cases r2)
      case (Inl e)
      with assms Some ir Inr up sb2 id2 show ?thesis by (auto simp: import_body_def)
    next
      case r2: (Inr u)
      obtain r3 s3 where sv:
        "save_job [JF_status, JF_processed_rows, JF_total_rows] (job2\<lparr> status := Completed \<rparr>) s2
           = (r3, s3)"
        by (cases "save_job [JF_status, JF_processed_rows, JF_total_rows] (job2\<lparr> status := Completed \<rparr>) s2")
      from save_job_same_but [OF sv] id2 sb2 have
        sb3: "same_but (job_id job) (import_jobs s) (import_jobs s3)"
        by (auto intro: same_but_trans)
      with assms Some ir Inr up r2 sv id2 show ?thesis
        by (cases r3) (auto simp: import_body_def Let_def trigger_jobs)
    qed
  qed
qed

text \<open>When the \<^verbatim>\<open>try\<close> block ends without an exception, the stored job is completed with
  the counters of the job object.\<close>

lemma import_body_success:
  assumes "import_body job s = (Inr u, job', s')"
  shows "\<exists>j. get_job (job_id job) s' = Inr j \<and> status j = Completed \<and>
             processed_rows j = processed_rows job' \<and> total_rows j = total_rows job'"
proof -
  from assms obtain job2 s2 s3 where
    j': "job' = job2\<lparr> status := Completed \<rparr>"
    and sv: "save_job [JF_status, JF_processed_rows, JF_total_rows] job' s2 = (Inr (), s3)"
    and s': "import_jobs s' = import_jobs s3"
    by (auto simp: import_body_def Let_def trigger_jobs
             split: option.splits prod.splits sum.splits if_splits)
  from import_body_same_but [OF assms] have id: "job_id job' = job_id job" by simp
  from save_job_get [OF sv] obtain j0 where
    "get_job (job_id job') s3 =
       Inr (copy_job_fields [JF_status, JF_processed_rows, JF_total_rows] job' j0)" by blast
  with id s' j' show ?thesis by (simp add: get_job_def copy_job_fields_def)
qed

lemma reset_job_ok:
  assumes g: "get_job jid s = Inr j0"
  shows "\<exists>s1. reset_job jid s =
           (Inr (j0\<lparr> status := Processing, error_message := [], total_rows := 0,
                      processed_rows := 0 \<rparr>), s1) \<and>
         same_but jid (import_jobs s) (import_jobs s1) \<and>
         get_job jid s1 =
           Inr (j0\<lparr> status := Processing, error_message := [], total_rows := 0,
                     processed_rows := 0 \<rparr>)"
proof -
  let ?job = "j0\<lparr> status := Processing, error_message := [], total_rows := 0,
                  processed_rows := 0 \<rparr>"
  from g have id: "job_id j0 = jid" by (rule get_job_id)
  from get_job_has [OF g] id obtain s1 where
    sv: "save_job [JF_status, JF_error_message, JF_total_rows, JF_processed_rows] ?job s
           = (Inr (), s1)"
    using save_job_ok [of ?job s] by auto
  from save_job_get [OF sv] g id have
    "get_job jid s1 = Inr ?job" by (simp add: copy_job_fields_def)
  moreover from save_job_same_but [OF sv] id have "same_but jid (import_jobs s) (import_jobs s1)"
    by simp
  ultimately show ?thesis using g sv by (auto simp: reset_job_def Let_def)
qed

text \<open>The two ways \<^verbatim>\<open>process_import_job\<close> ends for a job that exists.\<close>

lemma process_import_job_cases:
  assumes g: "get_job jid s = Inr j0"
  shows "\<exists>r s'. process_import_job jid s = (r, s') \<and>
           same_but jid (import_jobs s) (import_jobs s') \<and>
           (case r of
              Inl exc \<Rightarrow>
                (\<exists>j. get_job jid s' = Inr j \<and> status j = Failed \<and>
                      error_message j = str_exc exc) \<and>
                (job_file j0 = None \<longrightarrow>
                   exc = ValueError ''No file associated with this import job.'' \<and>
                   (\<exists>j. get_job jid s' = Inr j \<and> processed_rows j = 0))
            | Inr u \<Rightarrow> (\<exists>j. get_job jid s' = Inr j \<and> status j = Completed) \<and> job_file j0 \<noteq> None)"
proof -
  let ?job = "j0\<lparr> status := Processing, error_message := [], total_rows := 0,
                  processed_rows := 0 \<rparr>"
  from g have id: "job_id j0 = jid" by (rule get_job_id)
  from reset_job_ok [OF g] obtain s1 where
    rs: "reset_job jid s = (Inr ?job, s1)"
    and sb1: "same_but jid (import_jobs s) (import_jobs s1)"
    and g1: "get_job jid s1 = Inr ?job" by blast
  obtain r2 job1 s2 where b: "import_body ?job s1 = (r2, job1, s2)"
    by (cases "import_body ?job s1")
  from import_body_same_but [OF b] id have
    sb2: "same_but jid (import_jobs s1) (import_jobs s2)" and id1: "job_id job1 = jid"
    by simp_all
  show ?thesis
  proof (cases r2)
    case (Inr u)
    from import_body_success [OF b [unfolded Inr]] id obtain j where
      "get_job jid s2 = Inr j" "status j = Completed" by auto
    moreover have "job_file j0 \<noteq> None"
      using b Inr by (cases "job_file j0") (auto simp: import_body_def)
    ultimately show ?thesis
      using rs b Inr sb1 sb2
      by (auto simp: process_import_job_def intro: same_but_trans)
  next
    case (Inl exc)
    let ?job2 = "job1\<lparr> status := Failed, error_message := str_exc exc \<rparr>"
    have has2: "list_ex (\<lambda>j. job_id j = jid) (import_jobs s2)"
      using get_job_has [OF g1] same_but_has [OF sb2, of jid] by simp
    with id1 obtain s3 where
      sv: "save_job [JF_status, JF_error_message] ?job2 s2 = (Inr (), s3)"
      using save_job_ok [of ?job2 s2] by auto
    from save_job_get [OF sv] id1 obtain j2 where
      g2: "get_job jid s2 = Inr j2"
      and g3: "get_job jid s3 = Inr (copy_job_fields [JF_status, JF_error_message] ?job2 j2)"
      by auto
    from save_job_same_but [OF sv] id1 have sb3: "same_but jid (import_jobs s2) (import_jobs s3)"
      by simp
    have pr: "process_import_job jid s = (Inl exc, s3)"
      using rs b Inl sv by (simp add: process_import_job_def Let_def)
    have nofile: "job_file j0 = None \<longrightarrow>
        exc = ValueError ''No file associated with this import job.'' \<and>
        processed_rows (copy_job_fields [JF_status, JF_error_message] ?job2 j2) = 0"
    proof
      assume "job_file j0 = None"
      with b Inl have "exc = ValueError ''No file associated with this import job.''"
        and "s2 = s1" by (auto simp: import_body_def)
      with g1 g2 show "exc = ValueError ''No file associated with this import job.'' \<and>
        processed_rows (copy_job_fields [JF_status, JF_error_message] ?job2 j2) = 0"
        by (auto simp: copy_job_fields_def)
    qed
    show ?thesis
      using pr g3 nofile sb1 sb2 sb3
      by (auto simp: copy_job_fields_def intro: same_but_trans)
  qed
qed

lemma handler_saves:
  assumes g: "get_job jid s = Inr j0"
      and rs: "reset_job jid s = (Inr job, s1)"
      and b: "import_body job s1 = (Inl exc, job1, s2)"
  shows "\<exists>s3 j2. process_import_job jid s = (Inl exc, s3) \<and>
           get_job jid s2 = Inr j2 \<and>
           get_job jid s3 = Inr (j2\<lparr> status := Failed, error_message := str_exc exc \<rparr>) \<and>
           same_but jid (import_jobs s2) (import_jobs s3)"
proof -
  from reset_job_ok [OF g] rs have
    job: "job = j0\<lparr> status := Processing, error_message := [], total_rows := 0,
                    processed_rows := 0 \<rparr>"
    and g1: "get_job jid s1 = Inr job" by auto
  from g have id: "job_id j0 = jid" by (rule get_job_id)
  from import_body_same_but [OF b] id job have
    sb2: "same_but jid (import_jobs s1) (import_jobs s2)" and id1: "job_id job1 = jid"
    by simp_all
  let ?job2 = "job1\<lparr> status := Failed, error_message := str_exc exc \<rparr>"
  have has2: "list_ex (\<lambda>j. job_id j = jid) (import_jobs s2)"
    using get_job_has [OF g1] same_but_has [OF sb2, of jid] by simp
  with id1 obtain s3 where
    sv: "save_job [JF_status, JF_error_message] ?job2 s2 = (Inr (), s3)"
    using save_job_ok [of ?job2 s2] by auto
  from save_job_get [OF sv] id1 obtain j2 where
    g2: "get_job jid s2 = Inr j2"
    and g3: "get_job jid s3 = Inr (copy_job_fields [JF_status, JF_error_message] ?job2 j2)"
    by auto
  from save_job_same_but [OF sv] id1 have sb3: "same_but jid (import_jobs s2) (import_jobs s3)"
    by simp
  have pr: "process_import_job jid s = (Inl exc, s3)"
    using rs b sv by (simp add: process_import_job_def Let_def)
  from pr g2 g3 sb3 show ?thesis by (auto simp: copy_job_fields_def)
qed

text \<open>
  Claim C7. When the \<^verbatim>\<open>try\<close> block of \<^verbatim>\<open>process_import_job\<close> raises an exception
  for a job that exists, the task ends with that same exception, and the stored job then
  has the status failed and the whole \<^verbatim>\<open>str(exc)\<close> as its error message. For a job
  without a file the exception is the \<^verbatim>\<open>ValueError\<close> of line 40, the stored message
  is not empty and the stored \<^verbatim>\<open>processed_rows\<close> is 0.
\<close>

theorem process_import_job_failure:
  assumes g: "get_job jid s = Inr j0"
      and rs: "reset_job jid s = (Inr job, s1)"
      and b: "import_body job s1 = (Inl exc, job1, s2)"
  shows "\<exists>s' j. process_import_job jid s = (Inl exc, s') \<and>
           get_job jid s' = Inr j \<and> status j = Failed \<and> error_message j = str_exc exc \<and>
           (job_file j0 = None \<longrightarrow>
              exc = ValueError ''No file associated with this import job.'' \<and>
              error_message j \<noteq> [] \<and> processed_rows j = 0)"
proof -
  from handler_saves [OF g rs b] obtain s3 j2 where
    pr: "process_import_job jid s = (Inl exc, s3)"
    and g2: "get_job jid s2 = Inr j2"
    and g3: "get_job jid s3 = Inr (j2\<lparr> status := Failed, error_message := str_exc exc \<rparr>)"
    by blast
  from reset_job_ok [OF g] rs have
    job: "job = j0\<lparr> status := Processing, error_message := [], total_rows := 0,
                    processed_rows := 0 \<rparr>"
    and g1: "get_job jid s1 = Inr job" by auto
  have nofile: "job_file j0 = None \<longrightarrow>
      exc = ValueError ''No file associated with this import job.'' \<and>
      str_exc exc \<noteq> [] \<and> processed_rows j2 = 0"
  proof
    assume "job_file j0 = None"
    with b job have "exc = ValueError ''No file associated with this import job.''"
      and "s2 = s1" by (auto simp: import_body_def)
    with g1 g2 job show "exc = ValueError ''No file associated with this import job.'' \<and>
      str_exc exc \<noteq> [] \<and> processed_rows j2 = 0" by auto
  qed
  show ?thesis
    by (rule exI [of _ s3], rule exI [of _ "j2\<lparr> status := Failed, error_message := str_exc exc \<rparr>"])
       (use pr g3 nofile in simp)
qed

theorem process_import_job_failure_witness:
  "get_job ''j1'' detached_db = Inr detached_job \<and>
   (\<exists>s' j. process_import_job ''j1'' detached_db =
             (Inl (ValueError ''No file associated with this import job.''), s') \<and>
           get_job ''j1'' s' = Inr j \<and> status j = Failed \<and>
           error_message j = ''No file associated with this import job.'' \<and>
           processed_rows j = 0)"
proof -
  have g: "get_job ''j1'' detached_db = Inr detached_job" by code_simp
  have rs: "reset_job ''j1'' detached_db =
      (Inr (fst (snd (import_body (projr (fst (reset_job ''j1'' detached_db)))
                        (snd (reset_job ''j1'' detached_db))))),
       snd (reset_job ''j1'' detached_db))"
    by code_simp
  have b: "import_body (fst (snd (import_body (projr (fst (reset_job ''j1'' detached_db)))
                        (snd (reset_job ''j1'' detached_db)))))
             (snd (reset_job ''j1'' detached_db)) =
      (Inl (ValueError ''No file associated with this import job.''),
       fst (snd (import_body (projr (fst (reset_job ''j1'' detached_db)))
                        (snd (reset_job ''j1'' detached_db)))),
       snd (reset_job ''j1'' detached_db))"
    by code_simp
  have n: "job_file detached_job = None" by (simp add: detached_job_def)
  from process_import_job_failure [OF g rs b] n show ?thesis using g by auto
qed

lemma deliver_jobs: "import_jobs (snd (deliver_webhook post wid payload ev s)) = import_jobs s"
  by (auto simp: deliver_webhook_def save_delivery_def Let_def split: option.splits prod.splits http_result.splits)

lemma send_test_jobs: "import_jobs (snd (send_test_webhook wid s)) = import_jobs s"
  by (auto simp: send_test_webhook_def split: option.splits)

lemma process_other_job:
  assumes "jid' \<noteq> jid"
  shows "find (\<lambda>j. job_id j = jid) (import_jobs (snd (process_import_job jid' s))) =
         find (\<lambda>j. job_id j = jid) (import_jobs s)"
proof (cases "get_job jid' s")
  case (Inl e)
  then show ?thesis by (simp add: process_import_job_def reset_job_def)
next
  case (Inr j0)
  from process_import_job_cases [OF Inr] obtain r s' where
    "process_import_job jid' s = (r, s')" "same_but jid' (import_jobs s) (import_jobs s')"
    by blast
  with assms show ?thesis by (simp add: same_but_find)
qed

lemma find_append_some: "find P xs = Some x \<Longrightarrow> find P (xs @ ys) = Some x"
  by (induction xs) (auto split: if_splits)

lemma upload_keeps:
  "find (\<lambda>j. job_id j = jid) (import_jobs s) = Some j \<Longrightarrow>
   find (\<lambda>j. job_id j = jid) (import_jobs (snd (upload_view jid' filename f s))) = Some j"
  by (auto simp: upload_view_def find_append_some)

text \<open>
  Claim C2, as amended. The stored status of a job is kept by every operation other than
  a run of \<^verbatim>\<open>process_import_job\<close> for that job: uploads, runs for other jobs,
  deliveries, test sends, triggers and webhook deletions. A run for the job itself does
  change a terminal status: its first statements store the status processing, and when
  it returns the stored status is completed or failed.
\<close>

theorem status_changes_only_by_run:
  assumes st: "job_status_of jid s = Some st"
  shows "(oper \<noteq> Run (ProcessImportJob jid) \<longrightarrow> job_status_of jid (step post oper s) = Some st) \<and>
         job_status_of jid (snd (reset_job jid s)) = Some Processing \<and>
         (job_status_of jid (step post (Run (ProcessImportJob jid)) s) = Some Completed \<or>
          job_status_of jid (step post (Run (ProcessImportJob jid)) s) = Some Failed)"
proof -
  from st obtain j0 where f: "find (\<lambda>j. job_id j = jid) (import_jobs s) = Some j0"
    and sj: "status j0 = st" by (auto simp: job_status_of_def)
  then have g: "get_job jid s = Inr j0" by (simp add: get_job_def)
  have other: "oper \<noteq> Run (ProcessImportJob jid) \<longrightarrow> job_status_of jid (step post oper s) = Some st"
  proof
    assume ne: "oper \<noteq> Run (ProcessImportJob jid)"
    show "job_status_of jid (step post oper s) = Some st"
    proof (cases oper)
      case (Upload jid' filename fl)
      with upload_keeps [OF f] sj show ?thesis by (simp add: job_status_of_def)
    next
      case (Run t)
      show ?thesis
      proof (cases t)
        case (ProcessImportJob jid')
        with ne Run have "jid' \<noteq> jid" by simp
        from process_other_job [OF this] f sj Run ProcessImportJob show ?thesis
          by (simp add: job_status_of_def)
      next
        case (DeliverWebhook wid payload ev)
        with Run f sj show ?thesis by (simp add: job_status_of_def deliver_jobs)
      next
        case (SendTestWebhook wid)
        with Run f sj show ?thesis by (simp add: job_status_of_def send_test_jobs)
      qed
    next
      case (Trigger ev payload)
      with f sj show ?thesis by (simp add: job_status_of_def trigger_jobs)
    next
      case (DeleteWebhook wid)
      with f sj show ?thesis by (simp add: job_status_of_def webhook_delete_def)
    qed
  qed
  from reset_job_ok [OF g] have reset: "job_status_of jid (snd (reset_job jid s)) = Some Processing"
    by (auto simp: job_status_of_def get_job_def split: option.splits)
  from process_import_job_cases [OF g] obtain r s' where
    pr: "process_import_job jid s = (r, s')"
    and cs: "case r of
               Inl exc \<Rightarrow> (\<exists>j. get_job jid s' = Inr j \<and> status j = Failed \<and>
                                error_message j = str_exc exc) \<and>
                          (job_file j0 = None \<longrightarrow>
                             exc = ValueError ''No file associated with this import job.'' \<and>
                             (\<exists>j. get_job jid s' = Inr j \<and> processed_rows j = 0))
             | Inr u \<Rightarrow> (\<exists>j. get_job jid s' = Inr j \<and> status j = Completed) \<and>
                        job_file j0 \<noteq> None"
    by blast
  have run:
    "job_status_of jid (step post (Run (ProcessImportJob jid)) s) = Some Completed \<or>
     job_status_of jid (step post (Run (ProcessImportJob jid)) s) = Some Failed"
  proof (cases r)
    case (Inl exc)
    with cs obtain j where "get_job jid s' = Inr j" "status j = Failed" by auto
    with pr show ?thesis
      by (auto simp: job_status_of_def get_job_def split: option.splits)
  next
    case (Inr u)
    with cs obtain j where "get_job jid s' = Inr j" "status j = Completed" by auto
    with pr show ?thesis
      by (auto simp: job_status_of_def get_job_def split: option.splits)
  qed
  from other reset run show ?thesis by blast
qed

theorem status_changes_only_by_run_witness:
  "job_status_of ''j1'' (one_product\<lparr> import_jobs := [scenario_job\<lparr> status := Failed \<rparr>] \<rparr>) = Some Failed \<and>
   job_status_of ''j1''
     (step unreachable (Upload ''j2'' ''more.csv'' scenario_file)
        (one_product\<lparr> import_jobs := [scenario_job\<lparr> status := Failed \<rparr>] \<rparr>)) = Some Failed \<and>
   job_status_of ''j1''
     (snd (reset_job ''j1'' (one_product\<lparr> import_jobs := [scenario_job\<lparr> status := Failed \<rparr>] \<rparr>)))
     = Some Processing"
proof -
  have h: "job_status_of ''j1'' (one_product\<lparr> import_jobs := [scenario_job\<lparr> status := Failed \<rparr>] \<rparr>)
             = Some Failed" by code_simp
  have n: "Upload ''j2'' ''more.csv'' scenario_file \<noteq> Run (ProcessImportJob ''j1'')" by simp
  from status_changes_only_by_run [OF h, of "Upload ''j2'' ''more.csv'' scenario_file" unreachable] n h
  show ?thesis by blast
qed

text \<open>
  The claim as it was stated fails: for a completed job, the reset at the start of a
  further run stores the status processing, and when the job's file is no longer
  attached the run leaves the job failed.
\<close>

theorem terminal_status_counterexample:
  "job_status_of ''j1'' detached_db = Some Completed \<and>
   job_status_of ''j1'' (snd (reset_job ''j1'' detached_db)) = Some Processing \<and>
   job_status_of ''j1'' (step unreachable (Run (ProcessImportJob ''j1'')) detached_db) = Some Failed"
  by code_simp

text \<open>
  Claim C4 does not hold of the code. The file of the first end-to-end scenario has the
  rows abc, a row without SKU, and ABC. On an empty catalog the two rows with a SKU are
  both staged as new products, the batch fails on the unique constraint, and the job
  ends failed with both stored counters 0 and no product. On a catalog that already holds
  the SKU the same file completes with \<^verbatim>\<open>total_rows\<close> 3 and \<^verbatim>\<open>processed_rows\<close>
  2: the row that is skipped is not what fails the job.
\<close>

theorem scenario_import_fails_on_new_sku:
  "fst (process_import_job ''j1'' job_db) =
     Inl (IntegrityError ''UNIQUE constraint failed: uniq_product_sku_ci'') \<and>
   map (\<lambda>j. (status j, total_rows j, processed_rows j))
     (import_jobs (snd (process_import_job ''j1'' job_db))) = [(Failed, 0, 0)] \<and>
   products (snd (process_import_job ''j1'' job_db)) = [] \<and>
   fst (process_import_job ''j1'' one_product) = Inr () \<and>
   map (\<lambda>j. (status j, total_rows j, processed_rows j))
     (import_jobs (snd (process_import_job ''j1'' one_product))) = [(Completed, 3, 2)]"
  by code_simp

end
